theory Spec2Isabelle
  imports Complex_Main
begin

section \<open>Embedding of \<open>trainer_yolo/boxutils.py\<close>\<close>

text \<open>
  The module is a set of pure functions on TensorFlow tensors. A tensor of shape
  \<open>[a, b, c]\<close> is a list of lists of lists, the last axis of size 3 or 4 is a tuple,
  and an elementwise operation is a \<open>map\<close>.

  The \<open>float32\<close> entries are embedded twice. For the comparisons, the selections and
  the case analysis of the formulas they are \<^typ>\<open>real\<close> numbers and the arithmetic is
  exact: rounding, infinities and NaN are not represented there. A quotient is only ever
  used in a theorem under the assumption that its divisor is not zero. For the two
  properties that depend on rounding, the functions involved are embedded again with the
  rounding of every operation written out (the functions with the suffix \<open>_f32\<close>,
  further down).

  The Python integers \<open>grid_n\<close>, \<open>rois_n\<close> and \<open>n\<close> are natural numbers; \<open>rois_n\<close>
  is the length of the list of regions, as the source's reshapes require.
\<close>

type_synonym rect = "real \<times> real \<times> real \<times> real"
type_synonym roi = "real \<times> real \<times> real"
type_synonym 'a grid = "'a list list"

text \<open>A \<open>[grid_n, grid_n]\<close> tensor given entry by entry (row \<open>i\<close>, column \<open>j\<close>).\<close>

definition tabulate2 :: "nat \<Rightarrow> (nat \<Rightarrow> nat \<Rightarrow> 'a) \<Rightarrow> 'a grid" where
  "tabulate2 grid_n f = map (\<lambda>i. map (\<lambda>j. f i j) [0..<grid_n]) [0..<grid_n]"

subsection \<open>Interval and rectangle geometry\<close>

definition one_d_intersect :: "real \<Rightarrow> real \<Rightarrow> real \<Rightarrow> real \<Rightarrow> bool \<times> real \<times> real" where
  "one_d_intersect px1 px2 qx1 qx2 =
    (let zeros = px1 - px1;
         interA = (px1 > qx1);
         interB = (px2 > qx1);
         interC = (px2 > qx2);
         interD = (qx2 > px1);
         inter = (interB \<and> interD);
         inter_x1 = (if \<not> interA \<and> interB then qx1 else px1);
         inter_x2 = (if interC \<and> interD then qx2 else px2);
         inter_w = inter_x2 - inter_x1;
         inter_w' = (if inter then inter_w else zeros)
     in (inter, inter_x1, inter_w'))"

definition boxintersect :: "rect \<Rightarrow> rect list \<Rightarrow> real \<Rightarrow> bool list" where
  "boxintersect primeroi rois min_intersect =
    (case primeroi of (px1, py1, px2, py2) \<Rightarrow>
      map (\<lambda>(x1, y1, x2, y2).
        (case one_d_intersect px1 px2 x1 x2 of (is_inter_x, inter_x, inter_w) \<Rightarrow>
         case one_d_intersect py1 py2 y1 y2 of (is_inter_y, inter_y, inter_h) \<Rightarrow>
          (let inter_area = inter_w * inter_h;
               parea = (px2 - px1) * (py2 - py1);
               areas = (x2 - x1) * (y2 - y1);
               min_areas = min areas parea;
               inter = (is_inter_x \<and> is_inter_y);
               inter_with_area = (inter_area \<ge> min_areas * min_intersect)
           in inter \<and> inter_with_area))) rois)"

subsection \<open>Grid generation\<close>

definition gen_grid :: "nat \<Rightarrow> (real \<times> real) grid" where
  "gen_grid grid_n = tabulate2 grid_n (\<lambda>i j. (real j, real i))"

definition size_and_move_grid ::
  "(real \<times> real) grid \<Rightarrow> real \<Rightarrow> real \<times> real \<Rightarrow> (real \<times> real) grid" where
  "size_and_move_grid grid cell_w origin =
    map (map (\<lambda>(x, y). (x * cell_w + fst origin, y * cell_w + snd origin))) grid"

definition cxyw_rois :: "rect list \<Rightarrow> roi list" where
  "cxyw_rois rois =
    map (\<lambda>(rois_x1, rois_y1, rois_x2, rois_y2).
      ((rois_x1 + rois_x2) / 2, (rois_y1 + rois_y2) / 2, rois_x2 - rois_x1)) rois"

definition reshape_rois :: "roi list \<Rightarrow> nat \<Rightarrow> roi list grid" where
  "reshape_rois rois grid_n = replicate grid_n (replicate grid_n rois)"

definition gen_grid_for_tile :: "rect \<Rightarrow> nat \<Rightarrow> (real \<times> real) grid \<times> real" where
  "gen_grid_for_tile tile grid_n =
    (case tile of (tile_x1, tile_y1, tile_x2, tile_y2) \<Rightarrow>
      (let cell_w = (tile_x2 - tile_x1) / real grid_n;
           grid = gen_grid grid_n
       in (size_and_move_grid grid cell_w (tile_x1, tile_y1), cell_w)))"

text \<open>The expression \<open>(grid + grid + cell_w) / 2.0\<close> of the source.\<close>

definition grid_centers :: "(real \<times> real) grid \<Rightarrow> real \<Rightarrow> (real \<times> real) grid" where
  "grid_centers grid cell_w =
    map (map (\<lambda>(x, y). ((x + x + cell_w) / 2, (y + y + cell_w) / 2))) grid"

subsection \<open>Cell containment\<close>

definition center_in_grid_cell ::
  "(real \<times> real) grid \<Rightarrow> nat \<Rightarrow> real \<Rightarrow> roi list \<Rightarrow> real \<Rightarrow> bool list grid" where
  "center_in_grid_cell grid grid_n cell_w rois expand =
    (let cross_rois = reshape_rois rois grid_n in
      tabulate2 grid_n (\<lambda>i j.
        (case grid ! i ! j of (grid_x, grid_y) \<Rightarrow>
          map (\<lambda>(cross_rois_cx, cross_rois_cy, cross_rois_w).
            (let has_center_x = (cross_rois_cx \<ge> grid_x - (expand - 1) * cell_w
                                 \<and> cross_rois_cx < grid_x + expand * cell_w);
                 has_center_y = (cross_rois_cy \<ge> grid_y - (expand - 1) * cell_w
                                 \<and> cross_rois_cy < grid_y + expand * cell_w)
             in has_center_x \<and> has_center_y)) (cross_rois ! i ! j))))"

definition center_in_grid_cell_periphery ::
  "(real \<times> real) grid \<Rightarrow> nat \<Rightarrow> real \<Rightarrow> roi list \<Rightarrow> real \<Rightarrow> bool list grid" where
  "center_in_grid_cell_periphery grid grid_n cell_w rois expand =
    (let has_center = center_in_grid_cell grid grid_n cell_w rois 1;
         has_center_expanded = center_in_grid_cell grid grid_n cell_w rois expand
     in tabulate2 grid_n (\<lambda>i j.
          map (\<lambda>(e, h). e \<and> \<not> h) (zip (has_center_expanded ! i ! j) (has_center ! i ! j))))"

subsection \<open>Per-cell selection of the \<open>n\<close> best regions\<close>

datatype comparator = largest_w | furthest_from_center | closest_to_center

text \<open>
  \<open>tf.argmax\<close> and \<open>tf.argmin\<close> along the last axis: the lowest index of a greatest
  (least) entry. The source only reduces an axis of size \<open>rois_n \<ge> 1\<close>.
\<close>

fun argmax :: "real list \<Rightarrow> nat" where
  "argmax [] = 0"
| "argmax (x # xs) = (if list_all (\<lambda>y. y \<le> x) xs then 0 else Suc (argmax xs))"

fun argmin :: "real list \<Rightarrow> nat" where
  "argmin [] = 0"
| "argmin (x # xs) = (if list_all (\<lambda>y. x \<le> y) xs then 0 else Suc (argmin xs))"

definition d_from_cell_center :: "real \<times> real \<Rightarrow> roi \<Rightarrow> real" where
  "d_from_cell_center g r =
    (case g of (g_cx, g_cy) \<Rightarrow> case r of (cx, cy, w) \<Rightarrow> \<bar>cx - g_cx\<bar> + \<bar>cy - g_cy\<bar>)"

text \<open>
  The tensor handed to \<open>argmax\<close> or \<open>argmin\<close>, for one cell: the cast mask times the
  width or the distance, or the distance with 1000 where the mask is false.
\<close>

definition scores :: "comparator \<Rightarrow> real \<times> real \<Rightarrow> bool list \<Rightarrow> roi list \<Rightarrow> real list" where
  "scores cmp g has_center rs =
    map (\<lambda>(h, r).
      (case cmp of
         largest_w \<Rightarrow> (if h then 1 else 0) * snd (snd r)
       | furthest_from_center \<Rightarrow> (if h then 1 else 0) * d_from_cell_center g r
       | closest_to_center \<Rightarrow> (if h then d_from_cell_center g r else 1000 * 1)))
      (zip has_center rs)"

definition largest_index :: "comparator \<Rightarrow> real \<times> real \<Rightarrow> bool list \<Rightarrow> roi list \<Rightarrow> nat" where
  "largest_index cmp g has_center rs =
    (case cmp of
       closest_to_center \<Rightarrow> argmin (scores cmp g has_center rs)
     | _ \<Rightarrow> argmax (scores cmp g has_center rs))"

text \<open>\<open>tf.reduce_any\<close> along the last axis.\<close>

definition reduce_any :: "bool list \<Rightarrow> bool" where
  "reduce_any m = list_ex (\<lambda>h. h) m"

text \<open>The mask after a round: \<open>has_center AND NOT one_hot(largest_index, rois_n)\<close>.\<close>

definition zero_out :: "nat \<Rightarrow> bool list \<Rightarrow> nat \<Rightarrow> bool list" where
  "zero_out rois_n has_center li = map (\<lambda>(h, k). h \<and> k \<noteq> li) (zip has_center [0..<rois_n])"

text \<open>
  One pass of the loop body, for the whole grid: the indices chosen, the regions gathered
  (the zero region where the cell's mask is all false) and the mask for the next pass.
\<close>

record iteration =
  it_has_center :: "bool list grid"
  it_largest_indices :: "nat grid"
  it_largest_roi_in_cell :: "roi grid"

definition largest_indices ::
  "comparator \<Rightarrow> nat \<Rightarrow> (real \<times> real) grid \<Rightarrow> roi list grid \<Rightarrow> bool list grid \<Rightarrow> nat grid" where
  "largest_indices cmp grid_n g_c cross_rois has_center =
    tabulate2 grid_n (\<lambda>i j. largest_index cmp (g_c ! i ! j) (has_center ! i ! j) (cross_rois ! i ! j))"

definition largest_roi_in_cell ::
  "nat \<Rightarrow> roi list grid \<Rightarrow> bool list grid \<Rightarrow> nat grid \<Rightarrow> roi grid" where
  "largest_roi_in_cell grid_n cross_rois has_center li =
    tabulate2 grid_n (\<lambda>i j.
      if reduce_any (has_center ! i ! j) then cross_rois ! i ! j ! (li ! i ! j) else (0, 0, 0))"

definition zero_out_grid :: "nat \<Rightarrow> nat \<Rightarrow> bool list grid \<Rightarrow> nat grid \<Rightarrow> bool list grid" where
  "zero_out_grid grid_n rois_n has_center li =
    tabulate2 grid_n (\<lambda>i j. zero_out rois_n (has_center ! i ! j) (li ! i ! j))"

fun n_largest_loop ::
  "nat \<Rightarrow> comparator \<Rightarrow> nat \<Rightarrow> nat \<Rightarrow> (real \<times> real) grid \<Rightarrow> roi list grid \<Rightarrow> bool list grid
    \<Rightarrow> iteration list" where
  "n_largest_loop 0 cmp rois_n grid_n g_c cross_rois has_center = []"
| "n_largest_loop (Suc k) cmp rois_n grid_n g_c cross_rois has_center =
    (let li = largest_indices cmp grid_n g_c cross_rois has_center;
         lr = largest_roi_in_cell grid_n cross_rois has_center li;
         has_center' = zero_out_grid grid_n rois_n has_center li
     in \<lparr>it_has_center = has_center, it_largest_indices = li, it_largest_roi_in_cell = lr\<rparr>
        # n_largest_loop k cmp rois_n grid_n g_c cross_rois has_center')"

text \<open>The state of the loop of \<open>n_largest_rois_in_cell\<close>, pass by pass.\<close>

definition n_largest_iterations ::
  "rect \<Rightarrow> rect list \<Rightarrow> nat \<Rightarrow> nat \<Rightarrow> nat \<Rightarrow> comparator \<Rightarrow> real \<Rightarrow> iteration list" where
  "n_largest_iterations tile rois rois_n grid_n n cmp expand =
    (case gen_grid_for_tile tile grid_n of (grid, cell_w) \<Rightarrow>
      (let rois' = cxyw_rois rois;
           cross_rois = reshape_rois rois' grid_n;
           has_center = center_in_grid_cell grid grid_n cell_w rois' expand;
           g_c = grid_centers grid cell_w
       in n_largest_loop n cmp rois_n grid_n g_c cross_rois has_center))"

text \<open>\<open>tf.stack(n_largest, axis=2)\<close>: shape \<open>[grid_n, grid_n, n]\<close>.\<close>

definition stack_axis2 :: "nat \<Rightarrow> 'a grid list \<Rightarrow> 'a list grid" where
  "stack_axis2 grid_n ts = tabulate2 grid_n (\<lambda>i j. map (\<lambda>t. t ! i ! j) ts)"

definition n_largest_rois_in_cell ::
  "rect \<Rightarrow> rect list \<Rightarrow> nat \<Rightarrow> nat \<Rightarrow> nat \<Rightarrow> comparator \<Rightarrow> real \<Rightarrow> roi list grid" where
  "n_largest_rois_in_cell tile rois rois_n grid_n n cmp expand =
    stack_axis2 grid_n
      (map it_largest_roi_in_cell (n_largest_iterations tile rois rois_n grid_n n cmp expand))"

subsection \<open>Normalisation to cell-relative coordinates and back\<close>

definition make_rois_tile_cell_relative :: "rect \<Rightarrow> roi list grid \<Rightarrow> nat \<Rightarrow> roi list grid" where
  "make_rois_tile_cell_relative tile tiled_rois grid_n =
    (case gen_grid_for_tile tile grid_n of (grid, cell_w) \<Rightarrow>
      (let tile_w = cell_w * real grid_n;
           centers = grid_centers grid cell_w
       in tabulate2 grid_n (\<lambda>i j.
            (case centers ! i ! j of (gc_x, gc_y) \<Rightarrow>
              map (\<lambda>(tr_x, tr_y, tr_w).
                (let ctr_x = (tr_x - gc_x) / (cell_w / 2);
                     ctr_y = (tr_y - gc_y) / (cell_w / 2);
                     ctr_w = tr_w / tile_w;
                     ctr_x' = (if tr_w > 0 then ctr_x else tr_x);
                     ctr_y' = (if tr_w > 0 then ctr_y else tr_x)
                 in (ctr_x', ctr_y', ctr_w))) (tiled_rois ! i ! j)))))"

definition n_largest_rois_in_cell_relative ::
  "rect \<Rightarrow> rect list \<Rightarrow> nat \<Rightarrow> nat \<Rightarrow> nat \<Rightarrow> comparator \<Rightarrow> real \<Rightarrow> roi list grid" where
  "n_largest_rois_in_cell_relative tile rois rois_n grid_n n cmp expand =
    make_rois_tile_cell_relative tile
      (n_largest_rois_in_cell tile rois rois_n grid_n n cmp expand) grid_n"

subsection \<open>The merger of the two selections\<close>

datatype error = AssertionError

definition roi_select :: "roi \<Rightarrow> roi \<Rightarrow> roi \<Rightarrow> roi \<Rightarrow> roi list" where
  "roi_select r1 r2 p1 p2 =
    (let a0 = [r1, r1]; a1 = [r1, r2]; a2 = [p1, p1]; a3 = [p1, p2]; a4 = [r1, p1];
         a5 = [p2, p2]; a6 = [r1, p2]; a7 = [r2, r2]; a8 = [r2, p2]; a9 = [r2, p1];
         nz = map (\<lambda>(x, y, w). w > 0) [r1, r2, p1, p2];
         zero = [(0, 0, 0), (0, 0, 0)];
         r = (if nz = [False, False, False, False] then a0 else zero);
         r = (if nz = [False, False, False, True] then a5 else r);
         r = (if nz = [False, False, True, False] then a2 else r);
         r = (if nz = [False, False, True, True] then a3 else r);
         r = (if nz = [False, True, False, False] then a7 else r);
         r = (if nz = [False, True, False, True] then a8 else r);
         r = (if nz = [False, True, True, False] then a9 else r);
         r = (if nz = [False, True, True, True] then a9 else r);
         r = (if nz = [True, False, False, False] then a0 else r);
         r = (if nz = [True, False, False, True] then a6 else r);
         r = (if nz = [True, False, True, False] then a4 else r);
         r = (if nz = [True, False, True, True] then a4 else r);
         r = (if nz = [True, True, False, False] then a1 else r);
         r = (if nz = [True, True, False, True] then a1 else r);
         r = (if nz = [True, True, True, False] then a1 else r);
         r = (if nz = [True, True, True, True] then a1 else r)
     in r)"

text \<open>
  Lines 254 to 261: on the tensors reshaped to \<open>[grid_n * grid_n, n]\<close>, the width of a
  periphery region is replaced by zero where \<open>tf.equal(rw, pw)\<close> holds, entry by entry.
\<close>

definition exclude_periph :: "roi list list \<Rightarrow> roi list list \<Rightarrow> roi list list" where
  "exclude_periph rsnormal_rois rsperiph_rois =
    map (\<lambda>(nc, pc).
      map (\<lambda>((rx, ry, rw), (px, py, pw)).
        (let roi_exclude = (rw = pw);
             pw' = (if roi_exclude then 0 else pw)
         in (px, py, pw'))) (zip nc pc)) (zip rsnormal_rois rsperiph_rois)"

text \<open>\<open>tf.reshape\<close> from \<open>[grid_n * grid_n, ...]\<close> to \<open>[grid_n, grid_n, ...]\<close>.\<close>

definition reshape_grid :: "nat \<Rightarrow> 'a list \<Rightarrow> 'a grid" where
  "reshape_grid grid_n xs = tabulate2 grid_n (\<lambda>i j. xs ! (i * grid_n + j))"

definition n_experimental_roi_selection_strategy ::
  "rect \<Rightarrow> rect list \<Rightarrow> nat \<Rightarrow> nat \<Rightarrow> nat \<Rightarrow> error + roi list grid" where
  "n_experimental_roi_selection_strategy tile rois rois_n grid_n n =
    (if n \<noteq> 2 then Inl AssertionError
     else
      (let normal_rois = n_largest_rois_in_cell_relative tile rois rois_n grid_n n closest_to_center 1;
           periph_rois = n_largest_rois_in_cell_relative tile rois rois_n grid_n n closest_to_center (13 / 10);
           rsnormal_rois = concat normal_rois;
           rsperiph_rois = exclude_periph rsnormal_rois (concat periph_rois);
           rscombined_rois = map (\<lambda>(nc, pc). nc @ pc) (zip rsnormal_rois rsperiph_rois);
           rscombined_rois' = map (\<lambda>c. roi_select (c ! 0) (c ! 1) (c ! 2) (c ! 3)) rscombined_rois
       in Inr (reshape_grid grid_n rscombined_rois')))"

subsection \<open>The loop seen from one cell\<close>

text \<open>
  Every operation of the loop body acts on each cell \<open>(i, j)\<close> alone. \<open>cell_loop\<close> is the
  loop restricted to one cell: per pass, the cell's mask before the pass, the index chosen
  and the region written to the output. \<open>cell_view\<close> reads the same three values off a pass
  of the whole grid; \<open>n_largest_loop_cell\<close> below proves that the two agree.
\<close>

definition roi_w :: "roi \<Rightarrow> real" where
  "roi_w r = snd (snd r)"

fun cell_loop ::
  "nat \<Rightarrow> comparator \<Rightarrow> nat \<Rightarrow> real \<times> real \<Rightarrow> roi list \<Rightarrow> bool list
    \<Rightarrow> (bool list \<times> nat \<times> roi) list" where
  "cell_loop 0 cmp rois_n g rs has_center = []"
| "cell_loop (Suc k) cmp rois_n g rs has_center =
    (let li = largest_index cmp g has_center rs;
         lr = (if reduce_any has_center then rs ! li else (0, 0, 0));
         has_center' = zero_out rois_n has_center li
     in (has_center, li, lr) # cell_loop k cmp rois_n g rs has_center')"

definition cell_view :: "nat \<Rightarrow> nat \<Rightarrow> iteration \<Rightarrow> bool list \<times> nat \<times> roi" where
  "cell_view i j it =
    (it_has_center it ! i ! j, it_largest_indices it ! i ! j, it_largest_roi_in_cell it ! i ! j)"

subsection \<open>The value handed to the case table\<close>

text \<open>
  The variable \<open>rscombined_rois\<close> of \<open>n_experimental_roi_selection_strategy\<close> as it stands
  on line 262, before \<open>tf.map_fn(roi_select, ...)\<close>: per cell, the two normal regions
  followed by the two periphery regions after the exclusion.
\<close>

definition rscombined_rois :: "rect \<Rightarrow> rect list \<Rightarrow> nat \<Rightarrow> nat \<Rightarrow> nat \<Rightarrow> roi list list" where
  "rscombined_rois tile rois rois_n grid_n n =
    (let normal_rois = n_largest_rois_in_cell_relative tile rois rois_n grid_n n closest_to_center 1;
         periph_rois = n_largest_rois_in_cell_relative tile rois rois_n grid_n n closest_to_center (13 / 10);
         rsnormal_rois = concat normal_rois;
         rsperiph_rois = exclude_periph rsnormal_rois (concat periph_rois)
     in map (\<lambda>(nc, pc). nc @ pc) (zip rsnormal_rois rsperiph_rois))"

subsection \<open>Rounding to \<open>float32\<close>\<close>









subsection \<open>The grid, the containment test and the two transforms in \<open>float32\<close>\<close>








subsection \<open>Values on which no operation rounds\<close>



section \<open>Properties\<close>

subsection \<open>Tensors given entry by entry\<close>

lemma tabulate2_nth: "i < grid_n \<Longrightarrow> j < grid_n \<Longrightarrow> tabulate2 grid_n f ! i ! j = f i j"
  by (simp add: tabulate2_def)

lemma tabulate2_length: "length (tabulate2 grid_n f) = grid_n"
  by (simp add: tabulate2_def)

lemma tabulate2_row_length: "i < grid_n \<Longrightarrow> length (tabulate2 grid_n f ! i) = grid_n"
  by (simp add: tabulate2_def)

lemma concat_tabulate2_length: "length (concat (tabulate2 grid_n f)) = grid_n * grid_n"
  by (simp add: tabulate2_def length_concat comp_def sum_list_triv)

lemma flat_index_less:
  assumes "i < grid_n" and "j < (grid_n :: nat)"
  shows "i * grid_n + j < grid_n * grid_n"
proof -
  have "i * grid_n + j < i * grid_n + grid_n" using assms(2) by simp
  also have "\<dots> = Suc i * grid_n" by simp
  also have "\<dots> \<le> grid_n * grid_n" using assms(1) by (simp only: mult_le_mono1 Suc_leI)
  finally show ?thesis .
qed

subsection \<open>Interval intersection\<close>

text \<open>
  C4. For \<open>p1 \<le> p2\<close> and \<open>q1 \<le> q2\<close>: when \<open>p2 \<le> q1\<close> or \<open>q2 \<le> p1\<close> the function
  answers "no intersection" with length 0; otherwise it answers "intersection", the start
  is \<open>max p1 q1\<close> and the length is \<open>min p2 q2 - max p1 q1\<close>. As amended: that length is
  never negative, and it is strictly positive exactly when both intervals have positive
  length.
\<close>

theorem one_d_intersect_spec:
  assumes "p1 \<le> p2" and "q1 \<le> q2"
  shows "(if p2 \<le> q1 \<or> q2 \<le> p1
          then fst (one_d_intersect p1 p2 q1 q2) = False
             \<and> snd (snd (one_d_intersect p1 p2 q1 q2)) = 0
          else one_d_intersect p1 p2 q1 q2 = (True, max p1 q1, min p2 q2 - max p1 q1)
             \<and> 0 \<le> min p2 q2 - max p1 q1
             \<and> (0 < min p2 q2 - max p1 q1 \<longleftrightarrow> p1 < p2 \<and> q1 < q2))"
  using assms by (auto simp: one_d_intersect_def Let_def min_def max_def)

theorem one_d_intersect_spec_witness:
  "one_d_intersect 0 2 1 3 = (True, max 0 1, min 2 3 - max 0 1)
   \<and> fst (one_d_intersect 0 1 1 3) = False \<and> snd (snd (one_d_intersect 0 1 1 3)) = 0"
  using one_d_intersect_spec [of 0 2 1 3] one_d_intersect_spec [of 0 1 1 3] by simp

text \<open>
  The claim as written asks for a strictly positive length whenever the intervals
  intersect. The interval \<open>[1, 1]\<close> lies strictly inside \<open>[0, 2]\<close>: both tests
  \<open>px2 > qx1\<close> and \<open>qx2 > px1\<close> hold, and the length is 0.
\<close>

theorem one_d_intersect_zero_length_counterexample:
  "(1::real) \<le> 1 \<and> (0::real) \<le> 2 \<and> \<not> ((1::real) \<le> 0 \<or> (2::real) \<le> 1)
   \<and> one_d_intersect 1 1 0 2 = (True, 1, 0)
   \<and> \<not> 0 < snd (snd (one_d_intersect 1 1 0 2))"
  by (simp add: one_d_intersect_def Let_def)

subsection \<open>Rectangle intersection\<close>

text \<open>
  C5. As amended: for a rectangle \<open>r\<close> with \<open>x2 \<ge> x1\<close> and \<open>y2 \<ge> y1\<close>,
  \<open>boxintersect r [r] 1\<close> is true exactly when \<open>r\<close> has positive width and positive
  height.
\<close>

theorem boxintersect_self:
  assumes "x1 \<le> x2" and "y1 \<le> y2"
  shows "boxintersect (x1, y1, x2, y2) [(x1, y1, x2, y2)] 1 = [x1 < x2 \<and> y1 < y2]"
  using assms by (auto simp: boxintersect_def one_d_intersect_def Let_def)

theorem boxintersect_self_witness:
  "boxintersect (0, 0, 2, 3) [(0, 0, 2, 3)] 1 = [True]"
  using boxintersect_self [of 0 2 0 3] by simp

text \<open>A rectangle of zero width does not intersect itself: \<open>px2 > qx1\<close> fails.\<close>

theorem boxintersect_self_degenerate_counterexample:
  "(0::real) \<le> 0 \<and> (0::real) \<le> 1 \<and> boxintersect (0, 0, 0, 1) [(0, 0, 0, 1)] 1 = [False]"
  by (simp add: boxintersect_def one_d_intersect_def Let_def)

subsection \<open>The grid of a tile\<close>






subsection \<open>The cells partition the tile\<close>



lemma center_in_grid_cell_length:
  assumes "i < grid_n" and "j < grid_n"
  shows "length (center_in_grid_cell grid grid_n cell_w rois expand ! i ! j) = length rois"
  using assms
  by (simp add: center_in_grid_cell_def Let_def tabulate2_nth reshape_rois_def split: prod.splits)


subsection \<open>Normalisation\<close>




subsection \<open>\<open>argmax\<close> and \<open>argmin\<close>\<close>

lemma argmax_less: "xs \<noteq> [] \<Longrightarrow> argmax xs < length xs"
proof (induction xs)
  case Nil
  then show ?case by simp
next
  case (Cons x xs)
  then show ?case by (cases xs) auto
qed

lemma argmax_greatest: "k < length xs \<Longrightarrow> xs ! k \<le> xs ! argmax xs"
proof (induction xs arbitrary: k)
  case Nil
  then show ?case by simp
next
  case (Cons x xs)
  show ?case
  proof (cases "list_all (\<lambda>y. y \<le> x) xs")
    case True
    then show ?thesis using Cons.prems by (cases k) (auto simp: list_all_iff)
  next
    case False
    then obtain y where y: "y \<in> set xs" "x < y" by (auto simp: list_all_iff)
    then obtain m where m: "m < length xs" "xs ! m = y" by (auto simp: in_set_conv_nth)
    have "x \<le> xs ! argmax xs" using Cons.IH [OF m(1)] m(2) y(2) by simp
    then show ?thesis using False Cons.IH Cons.prems by (cases k) auto
  qed
qed

lemma argmin_less: "xs \<noteq> [] \<Longrightarrow> argmin xs < length xs"
proof (induction xs)
  case Nil
  then show ?case by simp
next
  case (Cons x xs)
  then show ?case by (cases xs) auto
qed

lemma argmin_least: "k < length xs \<Longrightarrow> xs ! argmin xs \<le> xs ! k"
proof (induction xs arbitrary: k)
  case Nil
  then show ?case by simp
next
  case (Cons x xs)
  show ?case
  proof (cases "list_all (\<lambda>y. x \<le> y) xs")
    case True
    then show ?thesis using Cons.prems by (cases k) (auto simp: list_all_iff)
  next
    case False
    then obtain y where y: "y \<in> set xs" "y < x" by (auto simp: list_all_iff)
    then obtain m where m: "m < length xs" "xs ! m = y" by (auto simp: in_set_conv_nth)
    have "xs ! argmin xs \<le> x" using Cons.IH [OF m(1)] m(2) y(2) by simp
    then show ?thesis using False Cons.IH Cons.prems by (cases k) auto
  qed
qed

lemma argmin_first: "k < argmin xs \<Longrightarrow> xs ! argmin xs < xs ! k"
proof (induction xs arbitrary: k)
  case Nil
  then show ?case by simp
next
  case (Cons x xs)
  show ?case
  proof (cases "list_all (\<lambda>y. x \<le> y) xs")
    case True
    then show ?thesis using Cons.prems by simp
  next
    case False
    then obtain y where y: "y \<in> set xs" "y < x" by (auto simp: list_all_iff)
    then obtain m where m: "m < length xs" "xs ! m = y" by (auto simp: in_set_conv_nth)
    have "xs ! argmin xs < x" using argmin_least [OF m(1)] m(2) y(2) by simp
    then show ?thesis using False Cons.IH Cons.prems by (cases k) auto
  qed
qed

subsection \<open>The loop, cell by cell\<close>

lemma n_largest_loop_cell:
  assumes "i < grid_n" and "j < grid_n"
  shows "map (cell_view i j) (n_largest_loop n cmp rois_n grid_n g_c cross_rois has_center) =
         cell_loop n cmp rois_n (g_c ! i ! j) (cross_rois ! i ! j) (has_center ! i ! j)"
proof (induction n arbitrary: has_center)
  case 0
  show ?case by simp
next
  case (Suc n)
  show ?case
    using assms Suc.IH
    by (simp add: Let_def cell_view_def largest_indices_def largest_roi_in_cell_def
        zero_out_grid_def tabulate2_nth)
qed

lemma n_largest_rois_in_cell_nth:
  assumes "i < grid_n" and "j < grid_n"
  shows "n_largest_rois_in_cell tile rois rois_n grid_n n cmp expand ! i ! j =
         map (\<lambda>it. it_largest_roi_in_cell it ! i ! j)
           (n_largest_iterations tile rois rois_n grid_n n cmp expand)"
  using assms by (simp add: n_largest_rois_in_cell_def stack_axis2_def tabulate2_nth comp_def)

lemma n_largest_iterations_cell:
  assumes "i < grid_n" and "j < grid_n"
    and "gen_grid_for_tile tile grid_n = (grid, cell_w)"
  shows "map (cell_view i j) (n_largest_iterations tile rois rois_n grid_n n cmp expand) =
         cell_loop n cmp rois_n (grid_centers grid cell_w ! i ! j) (cxyw_rois rois)
           (center_in_grid_cell grid grid_n cell_w (cxyw_rois rois) expand ! i ! j)"
  using assms n_largest_loop_cell [OF assms(1,2)]
  by (simp add: n_largest_iterations_def Let_def reshape_rois_def)

lemma n_largest_cell:
  assumes "i < grid_n" and "j < grid_n"
    and "gen_grid_for_tile tile grid_n = (grid, cell_w)"
  shows "n_largest_rois_in_cell tile rois rois_n grid_n n cmp expand ! i ! j =
         map (\<lambda>e. snd (snd e))
           (cell_loop n cmp rois_n (grid_centers grid cell_w ! i ! j) (cxyw_rois rois)
             (center_in_grid_cell grid grid_n cell_w (cxyw_rois rois) expand ! i ! j))"
proof -
  have "n_largest_rois_in_cell tile rois rois_n grid_n n cmp expand ! i ! j =
      map (\<lambda>e. snd (snd e)) (map (cell_view i j)
        (n_largest_iterations tile rois rois_n grid_n n cmp expand))"
    using n_largest_rois_in_cell_nth [OF assms(1,2)] by (simp add: cell_view_def comp_def)
  then show ?thesis using n_largest_iterations_cell [OF assms] by simp
qed

lemma reduce_any_iff: "reduce_any m \<longleftrightarrow> (\<exists>k<length m. m ! k)"
proof -
  have "reduce_any m \<longleftrightarrow> True \<in> set m" by (auto simp: reduce_any_def list_ex_iff)
  also have "\<dots> \<longleftrightarrow> (\<exists>k<length m. m ! k)" by (simp add: in_set_conv_nth)
  finally show ?thesis .
qed

lemma scores_length: "length (scores cmp g has_center rs) = min (length has_center) (length rs)"
  by (simp add: scores_def)

lemma scores_largest_w_nth:
  "k < length has_center \<Longrightarrow> k < length rs \<Longrightarrow>
   scores largest_w g has_center rs ! k = (if has_center ! k then roi_w (rs ! k) else 0)"
  by (simp add: scores_def roi_w_def)

lemma scores_closest_nth:
  "k < length has_center \<Longrightarrow> k < length rs \<Longrightarrow>
   scores closest_to_center g has_center rs ! k =
     (if has_center ! k then d_from_cell_center g (rs ! k) else 1000)"
  by (simp add: scores_def)

lemma zero_out_length: "length has_center = rois_n \<Longrightarrow> length (zero_out rois_n has_center li) = rois_n"
  by (simp add: zero_out_def)

lemma zero_out_nth:
  "length has_center = rois_n \<Longrightarrow> k < rois_n \<Longrightarrow>
   zero_out rois_n has_center li ! k \<longleftrightarrow> has_center ! k \<and> k \<noteq> li"
  by (simp add: zero_out_def)

lemma largest_index_less:
  assumes "length has_center = length rs" and "rs \<noteq> []"
  shows "largest_index cmp g has_center rs < length rs"
proof -
  have "scores cmp g has_center rs \<noteq> []"
    using assms scores_length [of cmp g has_center rs] by auto
  then show ?thesis
    using argmax_less [of "scores cmp g has_center rs"] argmin_less [of "scores cmp g has_center rs"]
      assms(1)
    by (cases cmp) (simp_all add: largest_index_def scores_length)
qed

text \<open>
  With \<open>largest_w\<close>: if every region of the mask has a positive width, the index chosen
  is in the mask and its width is the greatest of the mask.
\<close>

lemma largest_w_winner:
  assumes len: "length has_center = length rs"
    and any: "reduce_any has_center"
    and pos: "\<forall>k<length rs. has_center ! k \<longrightarrow> 0 < roi_w (rs ! k)"
  shows "largest_index largest_w g has_center rs < length rs
       \<and> has_center ! largest_index largest_w g has_center rs
       \<and> (\<forall>k<length rs. has_center ! k \<longrightarrow>
             roi_w (rs ! k) \<le> roi_w (rs ! largest_index largest_w g has_center rs))"
proof -
  let ?s = "scores largest_w g has_center rs"
  let ?li = "largest_index largest_w g has_center rs"
  have li: "?li = argmax ?s" by (simp add: largest_index_def)
  have sl: "length ?s = length rs" using len by (simp add: scores_length)
  obtain k0 where k0: "k0 < length rs" "has_center ! k0"
    using any len by (auto simp: reduce_any_iff)
  then have ne: "?s \<noteq> []" using sl by auto
  have lt: "?li < length rs" using argmax_less [OF ne] sl li by simp
  have ge: "?s ! k \<le> ?s ! ?li" if "k < length rs" for k
    using argmax_greatest [of k ?s] that sl li by simp
  have "0 < ?s ! k0" using k0 pos len by (simp add: scores_largest_w_nth)
  then have "0 < ?s ! ?li" using ge [OF k0(1)] by linarith
  then have inm: "has_center ! ?li"
    using lt len by (simp add: scores_largest_w_nth split: if_splits)
  have "roi_w (rs ! k) \<le> roi_w (rs ! ?li)" if "k < length rs" "has_center ! k" for k
    using ge [OF that(1)] that inm lt len by (simp add: scores_largest_w_nth)
  then show ?thesis using lt inm by blast
qed

text \<open>
  With \<open>closest_to_center\<close>: if every region of the mask is nearer than 1000 to the
  centre of the cell, the index chosen is in the mask.
\<close>

lemma closest_winner:
  assumes len: "length has_center = length rs"
    and any: "reduce_any has_center"
    and near: "\<forall>k<length rs. has_center ! k \<longrightarrow> d_from_cell_center g (rs ! k) < 1000"
  shows "largest_index closest_to_center g has_center rs < length rs
       \<and> has_center ! largest_index closest_to_center g has_center rs"
proof -
  let ?s = "scores closest_to_center g has_center rs"
  let ?li = "largest_index closest_to_center g has_center rs"
  have li: "?li = argmin ?s" by (simp add: largest_index_def)
  have sl: "length ?s = length rs" using len by (simp add: scores_length)
  obtain k0 where k0: "k0 < length rs" "has_center ! k0"
    using any len by (auto simp: reduce_any_iff)
  then have ne: "?s \<noteq> []" using sl by auto
  have lt: "?li < length rs" using argmin_less [OF ne] sl li by simp
  have "?s ! ?li \<le> ?s ! k0" using argmin_least [of k0 ?s] k0 sl li by simp
  moreover have "?s ! k0 < 1000" using k0 near len by (simp add: scores_closest_nth)
  ultimately have "?s ! ?li < 1000" by linarith
  then have "has_center ! ?li"
    using lt len by (simp add: scores_closest_nth split: if_splits)
  then show ?thesis using lt by simp
qed

lemma cell_loop_length: "length (cell_loop n cmp rois_n g rs has_center) = n"
  by (induction n arbitrary: has_center) (simp_all add: Let_def)

lemma cell_loop_entry:
  assumes "length has_center = rois_n"
    and "e \<in> set (cell_loop n cmp rois_n g rs has_center)"
  shows "length (fst e) = rois_n
       \<and> fst (snd e) = largest_index cmp g (fst e) rs
       \<and> snd (snd e) = (if reduce_any (fst e) then rs ! fst (snd e) else (0, 0, 0))"
  using assms
proof (induction n arbitrary: has_center)
  case 0
  then show ?case by simp
next
  case (Suc n)
  let ?li = "largest_index cmp g has_center rs"
  let ?hc' = "zero_out rois_n has_center ?li"
  from Suc.prems(2) consider "e = (has_center, ?li, if reduce_any has_center then rs ! ?li else (0, 0, 0))"
    | "e \<in> set (cell_loop n cmp rois_n g rs ?hc')"
    by (auto simp: Let_def)
  then show ?case
  proof cases
    case 1
    then show ?thesis using Suc.prems(1) by simp
  next
    case 2
    have "length ?hc' = rois_n" using Suc.prems(1) by (rule zero_out_length)
    from Suc.IH [OF this 2] show ?thesis .
  qed
qed

text \<open>The mask only shrinks, and the index chosen in a pass is out of every later mask.\<close>

lemma cell_loop_mask_shrinks:
  assumes "length has_center = rois_n"
    and "e \<in> set (cell_loop n cmp rois_n g rs has_center)"
  shows "length (fst e) = rois_n \<and> (\<forall>k<rois_n. fst e ! k \<longrightarrow> has_center ! k)"
  using assms
proof (induction n arbitrary: has_center)
  case 0
  then show ?case by simp
next
  case (Suc n)
  let ?li = "largest_index cmp g has_center rs"
  let ?hc' = "zero_out rois_n has_center ?li"
  from Suc.prems(2) consider "e = (has_center, ?li, if reduce_any has_center then rs ! ?li else (0, 0, 0))"
    | "e \<in> set (cell_loop n cmp rois_n g rs ?hc')"
    by (auto simp: Let_def)
  then show ?case
  proof cases
    case 1
    then show ?thesis using Suc.prems(1) by simp
  next
    case 2
    have "length ?hc' = rois_n" using Suc.prems(1) by (rule zero_out_length)
    from Suc.IH [OF this 2] show ?thesis
      using Suc.prems(1) by (simp add: zero_out_nth)
  qed
qed

lemma cell_loop_consumed:
  assumes "length has_center = rois_n"
    and "t1 < t2" and "t2 < n"
    and "fst (snd (cell_loop n cmp rois_n g rs has_center ! t1)) < rois_n"
  shows "\<not> fst (cell_loop n cmp rois_n g rs has_center ! t2)
            ! fst (snd (cell_loop n cmp rois_n g rs has_center ! t1))"
  using assms
proof (induction n arbitrary: has_center t1 t2)
  case 0
  then show ?case by simp
next
  case (Suc n)
  let ?li = "largest_index cmp g has_center rs"
  let ?hc' = "zero_out rois_n has_center ?li"
  have len': "length ?hc' = rois_n" using Suc.prems(1) by (rule zero_out_length)
  obtain u2 where t2: "t2 = Suc u2" using Suc.prems(2) by (cases t2) auto
  have u2: "u2 < n" using Suc.prems(3) t2 by simp
  show ?case
  proof (cases t1)
    case 0
    have li: "?li < rois_n" using Suc.prems(4) 0 by (simp add: Let_def)
    have mem: "cell_loop n cmp rois_n g rs ?hc' ! u2 \<in> set (cell_loop n cmp rois_n g rs ?hc')"
      using u2 by (simp add: cell_loop_length)
    have "\<not> ?hc' ! ?li" using Suc.prems(1) li by (simp add: zero_out_nth)
    then have "\<not> fst (cell_loop n cmp rois_n g rs ?hc' ! u2) ! ?li"
      using cell_loop_mask_shrinks [OF len' mem] li by blast
    then show ?thesis using 0 t2 by (simp add: Let_def)
  next
    case (Suc u1)
    have "u1 < u2" using Suc.prems(2) Suc t2 by simp
    moreover have "fst (snd (cell_loop n cmp rois_n g rs ?hc' ! u1)) < rois_n"
      using Suc.prems(4) Suc by (simp add: Let_def)
    ultimately show ?thesis
      using Suc.IH [OF len' _ u2, of u1] Suc t2 by (simp add: Let_def)
  qed
qed

text \<open>
  With \<open>largest_w\<close> and positive widths in the mask, a pass yields the zero region or a
  region of the mask, and the widths written never increase.
\<close>

lemma cell_loop_largest_w_output:
  assumes "length has_center = rois_n" and "length rs = rois_n"
    and "\<forall>k<rois_n. has_center ! k \<longrightarrow> 0 < roi_w (rs ! k)"
    and "e \<in> set (cell_loop n largest_w rois_n g rs has_center)"
  shows "snd (snd e) = (0, 0, 0) \<or> (\<exists>k<rois_n. has_center ! k \<and> snd (snd e) = rs ! k)"
  using assms
proof (induction n arbitrary: has_center)
  case 0
  then show ?case by simp
next
  case (Suc n)
  let ?li = "largest_index largest_w g has_center rs"
  let ?hc' = "zero_out rois_n has_center ?li"
  from Suc.prems(4) consider "e = (has_center, ?li, if reduce_any has_center then rs ! ?li else (0, 0, 0))"
    | "e \<in> set (cell_loop n largest_w rois_n g rs ?hc')"
    by (auto simp: Let_def)
  then show ?case
  proof cases
    case 1
    show ?thesis
    proof (cases "reduce_any has_center")
      case True
      have pos: "\<forall>k<length rs. has_center ! k \<longrightarrow> 0 < roi_w (rs ! k)"
        using Suc.prems(2,3) by simp
      have len: "length has_center = length rs" using Suc.prems(1,2) by simp
      from largest_w_winner [OF len True pos, of g]
      have "?li < rois_n" "has_center ! ?li" using Suc.prems(2) by simp_all
      then show ?thesis using 1 True by auto
    next
      case False
      then show ?thesis using 1 by simp
    qed
  next
    case 2
    have len': "length ?hc' = rois_n" using Suc.prems(1) by (rule zero_out_length)
    have pos': "\<forall>k<rois_n. ?hc' ! k \<longrightarrow> 0 < roi_w (rs ! k)"
      using Suc.prems(1,3) by (simp add: zero_out_nth)
    from Suc.IH [OF len' Suc.prems(2) pos' 2]
    consider "snd (snd e) = (0, 0, 0)" | k where "k < rois_n" "?hc' ! k" "snd (snd e) = rs ! k"
      by blast
    then show ?thesis
    proof cases
      case 1
      then show ?thesis by simp
    next
      case 2
      then have "has_center ! k" using Suc.prems(1) by (simp add: zero_out_nth)
      then show ?thesis using 2 by blast
    qed
  qed
qed

lemma cell_loop_largest_w_sorted:
  assumes "length has_center = rois_n" and "length rs = rois_n"
    and "\<forall>k<rois_n. has_center ! k \<longrightarrow> 0 < roi_w (rs ! k)"
  shows "sorted_wrt (\<ge>) (map (\<lambda>e. roi_w (snd (snd e))) (cell_loop n largest_w rois_n g rs has_center))"
  using assms
proof (induction n arbitrary: has_center)
  case 0
  then show ?case by simp
next
  case (Suc n)
  let ?li = "largest_index largest_w g has_center rs"
  let ?hc' = "zero_out rois_n has_center ?li"
  let ?lr = "if reduce_any has_center then rs ! ?li else (0, 0, 0)"
  have len': "length ?hc' = rois_n" using Suc.prems(1) by (rule zero_out_length)
  have pos': "\<forall>k<rois_n. ?hc' ! k \<longrightarrow> 0 < roi_w (rs ! k)"
    using Suc.prems(1,3) by (simp add: zero_out_nth)
  have pos: "\<forall>k<length rs. has_center ! k \<longrightarrow> 0 < roi_w (rs ! k)"
    using Suc.prems(2,3) by simp
  have len: "length has_center = length rs" using Suc.prems(1,2) by simp
  note win = largest_w_winner [OF len _ pos, of g]
  have tail: "sorted_wrt (\<ge>) (map (\<lambda>e. roi_w (snd (snd e))) (cell_loop n largest_w rois_n g rs ?hc'))"
    by (rule Suc.IH [OF len' Suc.prems(2) pos'])
  have head: "roi_w (snd (snd e)) \<le> roi_w ?lr"
    if e: "e \<in> set (cell_loop n largest_w rois_n g rs ?hc')" for e
  proof -
    from cell_loop_largest_w_output [OF len' Suc.prems(2) pos' e]
    consider "snd (snd e) = (0, 0, 0)" | k where "k < rois_n" "?hc' ! k" "snd (snd e) = rs ! k"
      by blast
    then show ?thesis
    proof cases
      case 1
      show ?thesis
      proof (cases "reduce_any has_center")
        case True
        from win [OF True] have "?li < length rs" "has_center ! ?li" by simp_all
        then have "0 < roi_w (rs ! ?li)" using pos by simp
        then show ?thesis using 1 True by (simp add: roi_w_def)
      next
        case False
        then show ?thesis using 1 by simp
      qed
    next
      case 2
      then have hk: "has_center ! k" using Suc.prems(1) by (simp add: zero_out_nth)
      then have any: "reduce_any has_center" using 2(1) Suc.prems(1) by (auto simp: reduce_any_iff)
      from win [OF any] have "\<forall>k<length rs. has_center ! k \<longrightarrow> roi_w (rs ! k) \<le> roi_w (rs ! ?li)"
        by simp
      then have "roi_w (rs ! k) \<le> roi_w (rs ! ?li)"
        using hk 2(1) Suc.prems(2) by simp
      then show ?thesis using 2(3) any by simp
    qed
  qed
  show ?case
    using tail head by (simp add: Let_def)
qed

subsection \<open>Evaluation on concrete tiles\<close>

lemmas eval_defs =
  n_largest_rois_in_cell_def n_largest_iterations_def gen_grid_for_tile_def gen_grid_def
  size_and_move_grid_def cxyw_rois_def reshape_rois_def center_in_grid_cell_def grid_centers_def
  tabulate2_def stack_axis2_def largest_indices_def largest_roi_in_cell_def zero_out_grid_def
  largest_index_def scores_def d_from_cell_center_def reduce_any_def zero_out_def Let_def
  n_largest_rois_in_cell_relative_def make_rois_tile_cell_relative_def

lemma upt_0_2: "[0..<2] = [0, 1]"
  by (simp add: upt_rec numeral_2_eq_2)

lemma upt_0_3: "[0..<3] = [0, 1, 2]"
  by (simp add: upt_rec numeral_3_eq_3)

subsection \<open>The sentinel distance of \<open>closest_to_center\<close>\<close>

text \<open>
  C3. The claim: with \<open>closest_to_center\<close>, in a cell whose mask is not all false, the
  index picked by the \<open>argmin\<close> is an index of the mask. The code at a tile of width 4000
  cut in 2 by 2 cells of width 2000: region 0 is centred at \<open>(3000, 3000)\<close>, in cell
  \<open>(1, 1)\<close>; region 1 is centred at \<open>(10, 10)\<close>, in cell \<open>(0, 0)\<close>, at distance 1980 from
  that cell's centre \<open>(1000, 1000)\<close>. In cell \<open>(0, 0)\<close> the mask is \<open>[False, True]\<close>, the
  \<open>argmin\<close> runs over \<open>[1000, 1980]\<close> and picks index 0, the masked-out region, and
  the cell is given region 0.
\<close>

theorem closest_to_center_picks_masked_out:
  "map it_has_center (n_largest_iterations (0, 0, 4000, 4000)
       [(2990, 2990, 3010, 3010), (0, 0, 20, 20)] 2 2 1 closest_to_center 1)
     = [[[[False, True], [False, False]], [[False, False], [True, False]]]]
   \<and> map it_largest_indices (n_largest_iterations (0, 0, 4000, 4000)
       [(2990, 2990, 3010, 3010), (0, 0, 20, 20)] 2 2 1 closest_to_center 1)
     = [[[0, 0], [0, 0]]]
   \<and> n_largest_rois_in_cell (0, 0, 4000, 4000)
       [(2990, 2990, 3010, 3010), (0, 0, 20, 20)] 2 2 1 closest_to_center 1
     = [[[(3000, 3000, 20)], [(0, 0, 0)]], [[(0, 0, 0)], [(3000, 3000, 20)]]]"
  by (simp add: eval_defs upt_0_2)

text \<open>
  The index picked is in the mask whenever every region of the mask is nearer than 1000
  to the centre of its cell.
\<close>

lemma closest_to_center_winner_contained:
  assumes "i < grid_n" and "j < grid_n" and "length rois = rois_n"
    and "gen_grid_for_tile tile grid_n = (grid, cell_w)"
    and "it \<in> set (n_largest_iterations tile rois rois_n grid_n n closest_to_center expand)"
    and "reduce_any (it_has_center it ! i ! j)"
    and "\<forall>k<rois_n. it_has_center it ! i ! j ! k \<longrightarrow>
           d_from_cell_center (grid_centers grid cell_w ! i ! j) (cxyw_rois rois ! k) < 1000"
  shows "it_has_center it ! i ! j ! (it_largest_indices it ! i ! j)"
proof -
  let ?rs = "cxyw_rois rois"
  let ?g = "grid_centers grid cell_w ! i ! j"
  let ?hc = "center_in_grid_cell grid grid_n cell_w ?rs expand ! i ! j"
  have lr: "length ?rs = rois_n" using assms(3) by (simp add: cxyw_rois_def)
  have lh: "length ?hc = rois_n" using center_in_grid_cell_length [OF assms(1,2)] lr by simp
  have "cell_view i j it \<in> set (map (cell_view i j)
      (n_largest_iterations tile rois rois_n grid_n n closest_to_center expand))"
    using assms(5) by simp
  then have mem: "cell_view i j it \<in> set (cell_loop n closest_to_center rois_n ?g ?rs ?hc)"
    using n_largest_iterations_cell [OF assms(1,2,4)] by simp
  from cell_loop_entry [OF lh mem]
  have len: "length (it_has_center it ! i ! j) = length ?rs"
    and li: "it_largest_indices it ! i ! j = largest_index closest_to_center ?g (it_has_center it ! i ! j) ?rs"
    using lr by (simp_all add: cell_view_def)
  have near: "\<forall>k<length ?rs. it_has_center it ! i ! j ! k \<longrightarrow> d_from_cell_center ?g (?rs ! k) < 1000"
    using assms(7) lr by simp
  from closest_winner [OF len assms(6) near] show ?thesis using li by simp
qed

subsection \<open>An index chosen twice\<close>

text \<open>
  C9. The claim: an index chosen in one pass is never chosen again, so the regions written
  to a cell that are not the zero region have pairwise distinct indices. The code on two
  inputs, one cell each and \<open>n = 2\<close>. With \<open>largest_w\<close>: region 0 of width 4 and region 1 of
  width 0, both centred in the cell; in the second pass the scores are \<open>[0, 0]\<close>, index 0
  is chosen again and region 0 is written twice. With \<open>closest_to_center\<close>: region 0 at
  the centre of a cell of width 4000 and region 1 at distance 3800; in the second pass
  the \<open>argmin\<close> runs over \<open>[1000, 3800]\<close> and index 0 is chosen again.
\<close>

theorem n_largest_selects_same_index_twice:
  "map (\<lambda>it. (it_has_center it ! 0 ! 0, it_largest_indices it ! 0 ! 0))
     (n_largest_iterations (0, 0, 10, 10) [(0, 0, 4, 4), (1, 1, 1, 1)] 2 1 2 largest_w 1)
     = [([True, True], 0), ([False, True], 0)]
   \<and> n_largest_rois_in_cell (0, 0, 10, 10) [(0, 0, 4, 4), (1, 1, 1, 1)] 2 1 2 largest_w 1
     = [[[(2, 2, 4), (2, 2, 4)]]]
   \<and> map (\<lambda>it. (it_has_center it ! 0 ! 0, it_largest_indices it ! 0 ! 0))
     (n_largest_iterations (0, 0, 4000, 4000)
        [(1995, 1995, 2005, 2005), (95, 95, 105, 105)] 2 1 2 closest_to_center 1)
     = [([True, True], 0), ([False, True], 0)]
   \<and> n_largest_rois_in_cell (0, 0, 4000, 4000)
        [(1995, 1995, 2005, 2005), (95, 95, 105, 105)] 2 1 2 closest_to_center 1
     = [[[(2000, 2000, 10), (2000, 2000, 10)]]]"
  by (simp add: eval_defs upt_0_2 numeral_2_eq_2)

text \<open>
  What does hold: the index chosen in a pass is out of the mask of every later pass. A
  later pass chooses it again only by choosing an index outside its own mask.
\<close>

lemma n_largest_index_consumed:
  assumes "i < grid_n" and "j < grid_n" and "length rois = rois_n" and "0 < rois_n"
    and "gen_grid_for_tile tile grid_n = (grid, cell_w)"
    and "its = n_largest_iterations tile rois rois_n grid_n n cmp expand"
    and "t1 < t2" and "t2 < n"
  shows "\<not> it_has_center (its ! t2) ! i ! j ! (it_largest_indices (its ! t1) ! i ! j)"
proof -
  let ?rs = "cxyw_rois rois"
  let ?g = "grid_centers grid cell_w ! i ! j"
  let ?hc = "center_in_grid_cell grid grid_n cell_w ?rs expand ! i ! j"
  let ?cl = "cell_loop n cmp rois_n ?g ?rs ?hc"
  have lr: "length ?rs = rois_n" using assms(3) by (simp add: cxyw_rois_def)
  have lh: "length ?hc = rois_n" using center_in_grid_cell_length [OF assms(1,2)] lr by simp
  have view: "map (cell_view i j) its = ?cl"
    using n_largest_iterations_cell [OF assms(1,2,5)] assms(6) by simp
  then have ln: "length its = n" using cell_loop_length [of n cmp rois_n ?g ?rs ?hc]
    by (metis length_map)
  have v: "?cl ! t = cell_view i j (its ! t)" if "t < n" for t
    using view that ln by (metis nth_map)
  have t1: "t1 < n" using assms(7,8) by simp
  have mem: "?cl ! t1 \<in> set ?cl" using t1 by (simp add: cell_loop_length)
  from cell_loop_entry [OF lh mem]
  have "length (fst (?cl ! t1)) = length ?rs"
    and "fst (snd (?cl ! t1)) = largest_index cmp ?g (fst (?cl ! t1)) ?rs"
    using lr by simp_all
  moreover have "?rs \<noteq> []" using lr assms(4) by auto
  ultimately have "fst (snd (?cl ! t1)) < rois_n"
    using largest_index_less [of "fst (?cl ! t1)" ?rs cmp ?g] lr by simp
  from cell_loop_consumed [OF lh assms(7,8) this]
  show ?thesis using v [OF t1] v [OF assms(8)] by (simp add: cell_view_def)
qed

subsection \<open>The order of the regions of a cell\<close>

text \<open>
  C6. The claim: the regions of a cell are listed in the order chosen, decreasing under
  the comparator. The code with \<open>largest_w\<close> and \<open>n = 2\<close> on a tile \<open>(0, 0, 10, 10)\<close> cut
  in 2 by 2 cells: region 0, of width 4, is centred in cell \<open>(1, 1)\<close>; regions 1 and 2, of
  widths 2 and 0, are centred in cell \<open>(0, 0)\<close>. Cell \<open>(0, 0)\<close> is given the widths 2, then 4:
  in the second pass the scores are \<open>[0, 0, 0]\<close> and index 0, outside the mask, is chosen.
\<close>

theorem n_largest_widths_not_decreasing:
  "center_in_grid_cell (fst (gen_grid_for_tile (0, 0, 10, 10) 2)) 2
       (snd (gen_grid_for_tile (0, 0, 10, 10) 2))
       (cxyw_rois [(5, 5, 9, 9), (1, 1, 3, 3), (1, 1, 1, 1)]) 1 ! 0 ! 0
     = [False, True, True]
   \<and> n_largest_rois_in_cell (0, 0, 10, 10) [(5, 5, 9, 9), (1, 1, 3, 3), (1, 1, 1, 1)] 3 2 2
       largest_w 1 ! 0 ! 0
     = [(2, 2, 2), (7, 7, 4)]"
  by (simp add: eval_defs upt_0_2 upt_0_3 numeral_2_eq_2)

text \<open>
  The two examples of the claim hold: three regions of widths 10, 5 and 20, in any order,
  all centred in one cell give that cell the widths \<open>[20, 10]\<close> for \<open>n = 2\<close> and
  \<open>[20, 10, 5]\<close> for \<open>n = 3\<close>.
\<close>

lemma three_widths:
  assumes "length (ws :: real list) = 3" and "set ws = {10, 5, 20}"
  shows "ws = [10, 5, 20] \<or> ws = [10, 20, 5] \<or> ws = [5, 10, 20] \<or> ws = [5, 20, 10]
       \<or> ws = [20, 10, 5] \<or> ws = [20, 5, 10]"
proof -
  obtain a b c where ws: "ws = [a, b, c]"
    using assms(1) by (auto simp: length_Suc_conv numeral_3_eq_3)
  have mem: "a = 10 \<or> a = 5 \<or> a = 20" "b = 10 \<or> b = 5 \<or> b = 20" "c = 10 \<or> c = 5 \<or> c = 20"
    using assms(2) ws by auto
  have cov: "a = 10 \<or> b = 10 \<or> c = 10" "a = 5 \<or> b = 5 \<or> c = 5" "a = 20 \<or> b = 20 \<or> c = 20"
    using assms(2) ws by auto
  show ?thesis using mem unfolding ws by (elim disjE; use cov in simp)
qed

lemma cell_loop_example_ev:
  assumes "[roi_w r0, roi_w r1, roi_w r2] = p"
    and "p = [10, 5, 20] \<or> p = [10, 20, 5] \<or> p = [5, 10, 20] \<or> p = [5, 20, 10]
         \<or> p = [20, 10, 5] \<or> p = [20, 5, 10]"
  shows "map (\<lambda>e. roi_w (snd (snd e))) (cell_loop 2 largest_w 3 g [r0, r1, r2] [True, True, True]) = [20, 10]
      \<and> map (\<lambda>e. roi_w (snd (snd e))) (cell_loop 3 largest_w 3 g [r0, r1, r2] [True, True, True]) = [20, 10, 5]"
proof -
  have upt3: "[0..<3] = [0, 1, 2]" by (simp add: upt_rec numeral_3_eq_3)
  have w: "snd (snd r0) = roi_w r0" "snd (snd r1) = roi_w r1" "snd (snd r2) = roi_w r2"
    by (simp_all add: roi_w_def)
  show ?thesis
    using assms(2) assms(1)
    by (elim disjE; simp add: numeral_2_eq_2 numeral_3_eq_3 Let_def largest_index_def scores_def
        reduce_any_def zero_out_def w upt_rec)
qed

lemma cell_loop_example:
  assumes "map roi_w rs = ws" and "length ws = 3" and "set ws = {10, 5, 20}"
  shows "map (\<lambda>e. roi_w (snd (snd e))) (cell_loop 2 largest_w 3 g rs [True, True, True]) = [20, 10]
       \<and> map (\<lambda>e. roi_w (snd (snd e))) (cell_loop 3 largest_w 3 g rs [True, True, True]) = [20, 10, 5]"
proof -
  obtain r0 r1 r2 where rs: "rs = [r0, r1, r2]"
    using assms(1,2) by (auto simp: length_Suc_conv numeral_3_eq_3 map_eq_Cons_conv)
  have "[roi_w r0, roi_w r1, roi_w r2] = ws" using assms(1) rs by simp
  from cell_loop_example_ev [OF this three_widths [OF assms(2,3)], of g]
  show ?thesis by (simp add: rs)
qed

lemma n_largest_example:
  assumes "i < grid_n" and "j < grid_n" and "length rois = 3"
    and "gen_grid_for_tile tile grid_n = (grid, cell_w)"
    and "center_in_grid_cell grid grid_n cell_w (cxyw_rois rois) expand ! i ! j = [True, True, True]"
    and "set (map roi_w (cxyw_rois rois)) = {10, 5, 20}"
  shows "map roi_w (n_largest_rois_in_cell tile rois 3 grid_n 2 largest_w expand ! i ! j) = [20, 10]
       \<and> map roi_w (n_largest_rois_in_cell tile rois 3 grid_n 3 largest_w expand ! i ! j) = [20, 10, 5]"
proof -
  have len: "length (map roi_w (cxyw_rois rois)) = 3" using assms(3) by (simp add: cxyw_rois_def)
  from cell_loop_example [OF refl len assms(6), of "grid_centers grid cell_w ! i ! j"]
  show ?thesis
    by (simp add: n_largest_cell [OF assms(1,2,4)] assms(5) comp_def)
qed

text \<open>
  And the widths written to a cell never increase when every region centred in the cell
  has a positive width.
\<close>

lemma n_largest_sorted_widths:
  assumes "i < grid_n" and "j < grid_n" and "length rois = rois_n"
    and "gen_grid_for_tile tile grid_n = (grid, cell_w)"
    and "\<forall>k<rois_n. center_in_grid_cell grid grid_n cell_w (cxyw_rois rois) expand ! i ! j ! k
           \<longrightarrow> 0 < roi_w (cxyw_rois rois ! k)"
  shows "sorted_wrt (\<ge>)
     (map roi_w (n_largest_rois_in_cell tile rois rois_n grid_n n largest_w expand ! i ! j))"
proof -
  let ?rs = "cxyw_rois rois"
  let ?hc = "center_in_grid_cell grid grid_n cell_w ?rs expand ! i ! j"
  have lr: "length ?rs = rois_n" using assms(3) by (simp add: cxyw_rois_def)
  have lh: "length ?hc = rois_n" using center_in_grid_cell_length [OF assms(1,2)] lr by simp
  from cell_loop_largest_w_sorted [OF lh lr assms(5)]
  show ?thesis by (simp add: n_largest_cell [OF assms(1,2,4)] comp_def)
qed

subsection \<open>The merger\<close>

text \<open>
  What the exclusion does, slot by slot: the width of a periphery region is set to zero
  when it equals the width of the normal region in the same slot of the same cell.
\<close>

lemma exclude_periph_slot:
  assumes "c < length rsnormal_rois" and "c < length rsperiph_rois"
    and "k < length (rsnormal_rois ! c)" and "k < length (rsperiph_rois ! c)"
    and "rsnormal_rois ! c ! k = (rx, ry, rw)" and "rsperiph_rois ! c ! k = (px, py, pw)"
  shows "exclude_periph rsnormal_rois rsperiph_rois ! c ! k = (px, py, if rw = pw then 0 else pw)"
  using assms by (simp add: exclude_periph_def Let_def)

text \<open>For \<open>n = 2\<close> the result is the case table applied to \<open>rscombined_rois\<close>, cell by cell.\<close>

lemma n_experimental_rscombined:
  "n_experimental_roi_selection_strategy tile rois rois_n grid_n 2 =
     Inr (reshape_grid grid_n
       (map (\<lambda>c. roi_select (c ! 0) (c ! 1) (c ! 2) (c ! 3))
          (rscombined_rois tile rois rois_n grid_n 2)))"
  by (simp add: n_experimental_roi_selection_strategy_def rscombined_rois_def Let_def)

text \<open>
  C2. The claim: a periphery region whose width equals that of a normal region of the same
  cell, in either of the two normal slots, has its width set to zero before the case table
  is applied, so that a region in both selections is credited to the normal selection
  only; the comment on line 260 says the same (\<open>keep in periphery rois only rois that are
  NOT in normal rois\<close>). The code on a tile \<open>(0, 0, 8, 8)\<close> of one cell, with the region
  \<open>X\<close> of corners \<open>(6, 6, 8, 8)\<close>, centred at \<open>(7, 7)\<close> in the cell, and a region \<open>Z\<close> centred
  at \<open>(- 1, 4)\<close>, outside the cell, in its periphery, and nearer to the centre \<open>(4, 4)\<close> of
  the cell than \<open>X\<close>. The normal selection is \<open>[X, empty]\<close>, the periphery selection is
  \<open>[Z, X]\<close>: \<open>X\<close> is in both, in the first slot of one and the second slot of the other.
  \<open>tf.equal(rw, pw)\<close> compares slot with slot, so the width of \<open>X\<close> in the periphery
  selection is compared with the width 0 of the empty slot and is kept. With \<open>Z\<close> of
  corners \<open>(- 2, 3, 0, 5)\<close>, of the same width 2 as \<open>X\<close>, it is \<open>Z\<close> that is zeroed, and the
  result of the cell is \<open>X\<close> twice; with \<open>Z\<close> of corners \<open>(- 3, 2, 1, 6)\<close>, of width 4,
  nothing is zeroed and \<open>X\<close> goes to the case table in both selections. The centres
  and widths of the regions, their distances to the centre of the cell and their
  normalised values (\<open>(3 / 4, 3 / 4, 1 / 4)\<close> for \<open>X\<close>, \<open>(- 5 / 4, 0, 1 / 4)\<close> or
  \<open>(- 5 / 4, 0, 1 / 2)\<close> for \<open>Z\<close>) are computed by \<open>float32\<close> without rounding; only
  the bounds \<open>- 2.4\<close> and \<open>10.4\<close> of the expanded window are rounded, and the
  coordinates \<open>- 1\<close>, 4 and 7 of the centres are far from them.
\<close>

theorem n_experimental_keeps_roi_of_other_slot:
  "rscombined_rois (0, 0, 8, 8) [(6, 6, 8, 8), (- 2, 3, 0, 5)] 2 1 2
     = [[(3 / 4, 3 / 4, 1 / 4), (0, 0, 0), (- (5 / 4), 0, 0), (3 / 4, 3 / 4, 1 / 4)]]
   \<and> n_experimental_roi_selection_strategy (0, 0, 8, 8) [(6, 6, 8, 8), (- 2, 3, 0, 5)] 2 1 2
     = Inr [[[(3 / 4, 3 / 4, 1 / 4), (3 / 4, 3 / 4, 1 / 4)]]]
   \<and> rscombined_rois (0, 0, 8, 8) [(6, 6, 8, 8), (- 3, 2, 1, 6)] 2 1 2
     = [[(3 / 4, 3 / 4, 1 / 4), (0, 0, 0), (- (5 / 4), 0, 1 / 2), (3 / 4, 3 / 4, 1 / 4)]]
   \<and> n_experimental_roi_selection_strategy (0, 0, 8, 8) [(6, 6, 8, 8), (- 3, 2, 1, 6)] 2 1 2
     = Inr [[[(3 / 4, 3 / 4, 1 / 4), (- (5 / 4), 0, 1 / 2)]]]"
proof -
  have a: "rscombined_rois (0, 0, 8, 8) [(6, 6, 8, 8), (- 2, 3, 0, 5)] 2 1 2
     = [[(3 / 4, 3 / 4, 1 / 4), (0, 0, 0), (- (5 / 4), 0, 0), (3 / 4, 3 / 4, 1 / 4)]]"
    by (simp add: rscombined_rois_def exclude_periph_def eval_defs upt_0_2 numeral_2_eq_2)
  have b: "rscombined_rois (0, 0, 8, 8) [(6, 6, 8, 8), (- 3, 2, 1, 6)] 2 1 2
     = [[(3 / 4, 3 / 4, 1 / 4), (0, 0, 0), (- (5 / 4), 0, 1 / 2), (3 / 4, 3 / 4, 1 / 4)]]"
    by (simp add: rscombined_rois_def exclude_periph_def eval_defs upt_0_2 numeral_2_eq_2)
  show ?thesis
    unfolding n_experimental_rscombined a b
    by (simp add: a b roi_select_def reshape_grid_def tabulate2_def Let_def)
qed

lemma make_rois_concat_length:
  "length (concat (make_rois_tile_cell_relative tile tiled_rois grid_n)) = grid_n * grid_n"
  by (simp add: make_rois_tile_cell_relative_def Let_def concat_tabulate2_length split: prod.splits)

lemma exclude_periph_length:
  "length (exclude_periph a b) = min (length a) (length b)"
  by (simp add: exclude_periph_def)

lemma length_if: "length a = n \<Longrightarrow> length b = n \<Longrightarrow> length (if c then a else b) = n"
  by simp

lemma roi_select_length: "length (roi_select r1 r2 p1 p2) = 2"
  unfolding roi_select_def Let_def by (intro length_if) simp_all

text \<open>
  C8. \<open>n_experimental_roi_selection_strategy\<close> fails on its assertion whenever \<open>n \<noteq> 2\<close>,
  and gives no output then; for \<open>n = 2\<close> it does not fail, and gives two regions for each of
  the \<open>grid_n \<times> grid_n\<close> cells.
\<close>

theorem n_experimental_assert:
  "(n \<noteq> 2 \<longrightarrow>
      n_experimental_roi_selection_strategy tile rois rois_n grid_n n = Inl AssertionError)
   \<and> (n = 2 \<longrightarrow>
      (\<exists>out. n_experimental_roi_selection_strategy tile rois rois_n grid_n n = Inr out
         \<and> length out = grid_n
         \<and> (\<forall>i<grid_n. length (out ! i) = grid_n
              \<and> (\<forall>j<grid_n. length (out ! i ! j) = 2))))"
proof (cases "n = 2")
  case False
  then show ?thesis by (simp add: n_experimental_roi_selection_strategy_def)
next
  case True
  define normal where "normal = concat (n_largest_rois_in_cell_relative tile rois rois_n grid_n 2 closest_to_center 1)"
  define periph where "periph = exclude_periph normal
      (concat (n_largest_rois_in_cell_relative tile rois rois_n grid_n 2 closest_to_center (13 / 10)))"
  define combined where "combined = map (\<lambda>(nc, pc). nc @ pc) (zip normal periph)"
  define selected where "selected = map (\<lambda>c. roi_select (c ! 0) (c ! 1) (c ! 2) (c ! 3)) combined"
  have res: "n_experimental_roi_selection_strategy tile rois rois_n grid_n n =
      Inr (reshape_grid grid_n selected)"
    using True
    by (simp add: n_experimental_roi_selection_strategy_def Let_def normal_def periph_def
        combined_def selected_def)
  have ln: "length normal = grid_n * grid_n"
    by (simp add: normal_def n_largest_rois_in_cell_relative_def make_rois_concat_length)
  have lp: "length periph = grid_n * grid_n"
    by (simp add: periph_def exclude_periph_length ln n_largest_rois_in_cell_relative_def
        make_rois_concat_length)
  have ls: "length selected = grid_n * grid_n"
    by (simp add: selected_def combined_def ln lp)
  have cell: "length (reshape_grid grid_n selected ! i ! j) = 2" if "i < grid_n" "j < grid_n" for i j
  proof -
    have "i * grid_n + j < length combined"
      using flat_index_less [OF that] by (simp add: combined_def ln lp)
    then show ?thesis
      using that by (simp add: reshape_grid_def tabulate2_nth selected_def roi_select_length)
  qed
  have "length (reshape_grid grid_n selected) = grid_n"
    by (simp add: reshape_grid_def tabulate2_length)
  moreover have "length (reshape_grid grid_n selected ! i) = grid_n" if "i < grid_n" for i
    using that by (simp add: reshape_grid_def tabulate2_row_length)
  ultimately show ?thesis
    using True res cell by simp
qed

theorem n_experimental_assert_witness:
  "n_experimental_roi_selection_strategy (0, 0, 10, 10) [(8, 8, 10, 10), (- 3, 3, 1, 7)] 2 1 3
     = Inl AssertionError
   \<and> (\<exists>out. n_experimental_roi_selection_strategy (0, 0, 10, 10)
          [(8, 8, 10, 10), (- 3, 3, 1, 7)] 2 1 2 = Inr out \<and> length out = 1
          \<and> length (out ! 0) = 1 \<and> length (out ! 0 ! 0) = 2)"
  using n_experimental_assert [of 3 "(0, 0, 10, 10)" "[(8, 8, 10, 10), (- 3, 3, 1, 7)]" 2 1]
    n_experimental_assert [of 2 "(0, 0, 10, 10)" "[(8, 8, 10, 10), (- 3, 3, 1, 7)]" 2 1]
  by fastforce

section \<open>Properties of the \<open>float32\<close> code\<close>

subsection \<open>Powers of two and their multiples\<close>

























subsection \<open>Values that rounding leaves unchanged\<close>














subsection \<open>Evaluation of the rounding\<close>





subsection \<open>The grid of a tile with binary coordinates\<close>






subsection \<open>The cells and the tile in \<open>float32\<close>\<close>









subsection \<open>The two transforms, entry by entry\<close>









subsection \<open>Normalisation and its inverse in \<open>float32\<close>\<close>




end
